theory Spec2Isabelle
  imports Main
begin

section \<open>The translation unit \<^verbatim>\<open>rgw_tracer.cc\<close>\<close>

text \<open>
  The file defines one variable, \<^verbatim>\<open>tracing::rgw::tracer\<close>, of class
  \<^verbatim>\<open>tracing::Tracer_RGW\<close>. The preprocessor keeps one of two definitions:
  \<^verbatim>\<open>
  #ifdef HAVE_JAEGER_RGW
  thread_local tracing::Tracer_RGW tracer("rgw");
  #else // !HAVE_JAEGER
  tracing::Tracer_RGW tracer;
  #endif
  \<close>
  The macro is a parameter of the model (a boolean, true when it is defined), never a
  component of the state of the running process. A definition is recorded by the two
  things in which the branches differ: the storage duration of the variable and its
  initializer.
\<close>

text \<open>
  An execution context is a thread; \<open>thread_id\<close> names it for the lifetime of the
  process.
\<close>

type_synonym thread_id = nat

datatype storage_duration = Static_Storage | Thread_Storage

text \<open>
  \<open>Default_Init\<close> is the definition without an initializer (the default constructor
  runs, with no argument); \<open>Direct_Init args\<close> is the parenthesised list of
  constructor arguments.
\<close>

datatype initializer = Default_Init | Direct_Init "string list"

record variable_definition =
  storage :: storage_duration
  init :: initializer

definition tracer :: "bool \<Rightarrow> variable_definition" where
  "tracer HAVE_JAEGER_RGW =
     (if HAVE_JAEGER_RGW
      then \<lparr>storage = Thread_Storage, init = Direct_Init [''rgw'']\<rparr>
      else \<lparr>storage = Static_Storage, init = Default_Init\<rparr>)"

subsection \<open>Objects of the variable in a running process\<close>

text \<open>
  A variable of static storage duration names one object for the whole process; a
  variable of thread storage duration names one object per thread. The identity of an
  object (its address in the program) is modelled by \<open>object_id\<close>.
\<close>

datatype object_id = Static_Object | Thread_Object thread_id

fun instance_of :: "storage_duration \<Rightarrow> thread_id \<Rightarrow> object_id" where
  "instance_of Static_Storage t = Static_Object"
| "instance_of Thread_Storage t = Thread_Object t"

text \<open>
  The store holds the objects of \<open>tracer\<close> that are alive, each with the initializer
  its constructor was called with.
\<close>

type_synonym store = "object_id \<rightharpoonup> initializer"

text \<open>
  At program start the objects of static storage duration are constructed; an object
  of thread storage duration is constructed before its first use in its thread.
\<close>

definition static_init :: "bool \<Rightarrow> store" where
  "static_init b =
     (case storage (tracer b) of
        Static_Storage \<Rightarrow> [Static_Object \<mapsto> init (tracer b)]
      | Thread_Storage \<Rightarrow> Map.empty)"

text \<open>
  \<open>current b t s\<close> is the evaluation of the name \<open>tracer\<close> by thread \<open>t\<close> in the build
  \<open>b\<close>: the object the name denotes there, and the store afterwards (the object is
  constructed if this is its first use).
\<close>

definition current :: "bool \<Rightarrow> thread_id \<Rightarrow> store \<Rightarrow> object_id \<times> store" where
  "current b t s =
     (let oid = instance_of (storage (tracer b)) t
      in (oid, if s oid = None then s(oid \<mapsto> init (tracer b)) else s))"

text \<open>When a thread exits, its object of thread storage duration is destroyed.\<close>

definition thread_exit :: "thread_id \<Rightarrow> store \<Rightarrow> store" where
  "thread_exit t s = s(Thread_Object t := None)"

datatype event = Use thread_id | Thread_Exit thread_id

fun step :: "bool \<Rightarrow> store \<Rightarrow> event \<Rightarrow> store" where
  "step b s (Use t) = snd (current b t s)"
| "step b s (Thread_Exit t) = thread_exit t s"

text \<open>
  The store a process of build \<open>b\<close> has reached after the events \<open>evs\<close>, the uses
  and exits of its threads in the order in which they happened. Every list of events is
  admitted, so the reachable stores are over-approximated: a statement about \<open>run b evs\<close>
  for all \<open>evs\<close> holds in every state a real process reaches.
\<close>

definition run :: "bool \<Rightarrow> event list \<Rightarrow> store" where
  "run b evs = foldl (step b) (static_init b) evs"

section \<open>The tracer handle and its spans\<close>

text \<open>
  The class \<^verbatim>\<open>Tracer_RGW\<close>, its operations and the span type are declared in
  \<^verbatim>\<open>rgw_tracer.h\<close>, which is not among the sources. Every definition of this
  section is therefore written from the words of the specification, which it quotes.
\<close>

text \<open>
  Modelled from the spec: the reference by which one span names another (the header
  with the span type is missing). Spans are numbered in the order in which the handle
  creates them.
\<close>

type_synonym span_id = nat

text \<open>
  Modelled from the spec: the span type (the header is missing). A span is "one named,
  timed operation; carries a start time, an optional parent span reference (forming a
  tree), and a completion state".
\<close>

record span =
  span_name :: string
  start_time :: nat
  parent :: "span_id option"
  completed :: bool

text \<open>
  Modelled from the spec: what \<open>new_span\<close> hands back to the caller, either the
  "lightweight sentinel Span" of the build without the backend or a reference to a span
  the backend tracks.
\<close>

datatype span_ref = Sentinel | Tracked span_id

text \<open>
  Modelled from the spec: the calls the handle makes to the backend. "On handle
  construction, supplies a service name string"; \<open>new_span\<close> "begins tracking the span
  in the backend's in-process buffer"; "on span completion, hands off a completed span
  object for asynchronous export".
\<close>

datatype backend_call = Connect string | Begin_Tracking span_id | Export span_id

text \<open>
  Modelled from the spec: the state of a Tracer Handle, which "identifies a logical
  service name and, when enabled, an underlying exporter connection". The fields
  \<open>allocations\<close>, \<open>timestamps\<close> and \<open>backend_calls\<close> count or log the effects the spec
  names (allocation, timestamp capture, backend call); \<open>buffer\<close> is the in-process
  buffer of tracked spans.
\<close>

record Tracer_RGW =
  service_name :: "string option"
  enabled :: bool
  buffer :: "span_id \<rightharpoonup> span"
  allocations :: nat
  timestamps :: nat
  backend_calls :: "backend_call list"

text \<open>
  Modelled from the spec: the service name a constructor call carries, the first
  constructor argument if there is one.
\<close>

fun name_of :: "initializer \<Rightarrow> string option" where
  "name_of Default_Init = None"
| "name_of (Direct_Init []) = None"
| "name_of (Direct_Init (n # ns)) = Some n"

text \<open>
  Modelled from the spec: the constructors of the class. The "first call in a given
  unit constructs the handle (selecting the service name and backend capability baked
  in at build time)"; the backend is given the service name when there is a backend.
\<close>

definition construct :: "bool \<Rightarrow> initializer \<Rightarrow> Tracer_RGW" where
  "construct HAVE_JAEGER_RGW i =
     \<lparr>service_name = name_of i,
      enabled = HAVE_JAEGER_RGW,
      buffer = Map.empty,
      allocations = 0,
      timestamps = 0,
      backend_calls =
        (case name_of i of
           Some n \<Rightarrow> if HAVE_JAEGER_RGW then [Connect n] else []
         | None \<Rightarrow> [])\<rparr>"

text \<open>
  Modelled from the spec: "\<open>is_enabled() -> bool\<close>: reports the Backend Capability
  flag".
\<close>

definition is_enabled :: "Tracer_RGW \<Rightarrow> bool" where
  "is_enabled h = enabled h"

text \<open>
  Modelled from the spec: the parent linkage \<open>new_span\<close> registers for its optional
  parent argument. A sentinel is not a span of any trace.
\<close>

fun parent_link :: "span_ref option \<Rightarrow> span_id option" where
  "parent_link None = None"
| "parent_link (Some Sentinel) = None"
| "parent_link (Some (Tracked p)) = Some p"

text \<open>
  Modelled from the spec: "\<open>new_span(name, parent?) -> Span\<close> [...] When the Backend
  Capability flag is false, this returns a lightweight sentinel Span whose later
  operations are all no-ops costing at most a branch: no allocation, no timestamp
  capture, no backend call. When true, it records a start timestamp, registers the
  parent linkage, and begins tracking the span in the backend's in-process buffer."
  The argument \<open>now\<close> is the clock's value, read only in the second case.
\<close>

definition new_span ::
  "Tracer_RGW \<Rightarrow> nat \<Rightarrow> string \<Rightarrow> span_ref option \<Rightarrow> span_ref \<times> Tracer_RGW" where
  "new_span h now name p =
     (if \<not> enabled h then (Sentinel, h)
      else
        let sid = allocations h
        in (Tracked sid,
            h\<lparr>buffer := (buffer h)(sid \<mapsto>
                  \<lparr>span_name = name, start_time = now,
                   parent = parent_link p, completed = False\<rparr>),
              allocations := Suc sid,
              timestamps := Suc (timestamps h),
              backend_calls := backend_calls h @ [Begin_Tracking sid]\<rparr>))"

text \<open>
  Modelled from the spec: the completion call. On a sentinel it is a no-op; on a
  tracked span it sets the completion state and hands the span to the backend. Misuse
  ("span completed twice, parent from a different trace, span leaked") is "tolerated
  defensively": completing a span the buffer does not hold changes nothing.
\<close>

definition complete :: "Tracer_RGW \<Rightarrow> span_ref \<Rightarrow> Tracer_RGW" where
  "complete h r =
     (case r of
        Sentinel \<Rightarrow> h
      | Tracked sid \<Rightarrow>
          (if \<not> enabled h then h
           else
             (case buffer h sid of
                None \<Rightarrow> h
              | Some sp \<Rightarrow>
                  h\<lparr>buffer := (buffer h)(sid \<mapsto> sp\<lparr>completed := True\<rparr>),
                    backend_calls := backend_calls h @ [Export sid]\<rparr>)))"

text \<open>
  Modelled from the spec: a sequence of \<open>new_span\<close> and span-completion calls on one
  handle, as request-processing code makes them, and what each call returns.
\<close>

datatype call = New_Span nat string "span_ref option" | Complete span_ref

text \<open>Modelled from the spec: the value a call of the handle returns to its caller.\<close>

datatype outcome = Returned_Span span_ref | Returned

text \<open>Modelled from the spec: one call of the sequence, on the handle as it is.\<close>

fun invoke :: "Tracer_RGW \<Rightarrow> call \<Rightarrow> outcome \<times> Tracer_RGW" where
  "invoke h (New_Span now name p) =
     (case new_span h now name p of (r, h') \<Rightarrow> (Returned_Span r, h'))"
| "invoke h (Complete r) = (Returned, complete h r)"

text \<open>Modelled from the spec: the whole sequence, call after call.\<close>

fun invoke_all :: "Tracer_RGW \<Rightarrow> call list \<Rightarrow> outcome list \<times> Tracer_RGW" where
  "invoke_all h [] = ([], h)"
| "invoke_all h (c # cs) =
     (case invoke h c of (x, h') \<Rightarrow>
        (case invoke_all h' cs of (xs, h'') \<Rightarrow> (x # xs, h'')))"

text \<open>
  Modelled from the spec: the "successful no-op return" of a call, the sentinel for
  \<open>new_span\<close> and a plain return for a completion.
\<close>

fun noop_outcome :: "call \<Rightarrow> outcome" where
  "noop_outcome (New_Span now name p) = Returned_Span Sentinel"
| "noop_outcome (Complete r) = Returned"

section \<open>Threads calling their handles\<close>













section \<open>The build without the backend\<close>

lemma tracer_False: "tracer False = \<lparr>storage = Static_Storage, init = Default_Init\<rparr>"
  by (simp add: tracer_def)

lemma step_False:
  "step False [Static_Object \<mapsto> Default_Init] e = [Static_Object \<mapsto> Default_Init]"
  by (cases e) (simp_all add: current_def Let_def thread_exit_def tracer_False)

lemma foldl_step_False:
  "foldl (step False) [Static_Object \<mapsto> Default_Init] evs = [Static_Object \<mapsto> Default_Init]"
proof (induction evs)
  case Nil
  show ?case by (simp only: foldl.simps)
next
  case (Cons e evs)
  then show ?case by (simp only: foldl.simps step_False)
qed

lemma run_False: "run False evs = [Static_Object \<mapsto> Default_Init]"
  by (simp add: run_def static_init_def tracer_False foldl_step_False)

text \<open>
  C8: in the build without the backend the variable has static storage duration, so
  there is one object for the whole process: in every reachable state every thread that
  evaluates \<open>tracer\<close> gets that one object, nothing is constructed for the thread, and
  no other object of the variable exists.
\<close>

theorem C8_single_global_object:
  "storage (tracer False) = Static_Storage
   \<and> current False t (run False evs) = (Static_Object, run False evs)
   \<and> dom (run False evs) = {Static_Object}"
proof -
  have static: "storage (tracer False) = Static_Storage"
    by (simp add: tracer_False)
  have same: "current False t (run False evs) = (Static_Object, run False evs)"
    by (simp add: run_False current_def Let_def tracer_False)
  have only: "dom (run False evs) = {Static_Object}"
    by (simp add: run_False)
  from static same only show ?thesis by (intro conjI)
qed

section \<open>The build with the backend\<close>

lemma tracer_True:
  "tracer True = \<lparr>storage = Thread_Storage, init = Direct_Init [''rgw'']\<rparr>"
  by (simp add: tracer_def)

lemma run_snoc: "run b (evs @ [e]) = step b (run b evs) e"
  by (simp add: run_def)

lemma run_Nil: "run b [] = static_init b"
  by (simp add: run_def)

text \<open>
  Every object of a reachable store was constructed by the definition of the build:
  with its initializer, and at an identity its storage duration gives.
\<close>

lemma static_init_objects:
  assumes "static_init b oid = Some i"
  shows "i = init (tracer b) \<and> (\<exists>t. oid = instance_of (storage (tracer b)) t)"
proof (cases b)
  case True
  with assms show ?thesis by (simp add: static_init_def tracer_True)
next
  case False
  with assms have "oid = Static_Object \<and> i = Default_Init"
    by (simp add: static_init_def tracer_False split: if_splits)
  with False show ?thesis by (simp add: tracer_False)
qed

lemma step_objects:
  assumes inv: "\<And>oid i. s oid = Some i \<Longrightarrow>
             i = init (tracer b) \<and> (\<exists>t. oid = instance_of (storage (tracer b)) t)"
    and new: "step b s e oid = Some i"
  shows "i = init (tracer b) \<and> (\<exists>t. oid = instance_of (storage (tracer b)) t)"
proof (cases e)
  case (Use t)
  show ?thesis
  proof (cases "s oid")
    case None
    with new Use have "oid = instance_of (storage (tracer b)) t \<and> i = init (tracer b)"
      by (simp add: current_def Let_def split: if_splits)
    then show ?thesis by blast
  next
    case (Some j)
    with new Use have "s oid = Some i"
      by (simp add: current_def Let_def split: if_splits)
    then show ?thesis by (rule inv)
  qed
next
  case (Thread_Exit t)
  with new have "s oid = Some i"
    by (simp add: thread_exit_def split: if_splits)
  then show ?thesis by (rule inv)
qed

lemma run_objects:
  "run b evs oid = Some i \<Longrightarrow>
     i = init (tracer b) \<and> (\<exists>t. oid = instance_of (storage (tracer b)) t)"
proof (induction evs arbitrary: oid i rule: rev_induct)
  case Nil
  then show ?case by (simp add: run_Nil static_init_objects)
next
  case (snoc e evs)
  from snoc.prems have "step b (run b evs) e oid = Some i"
    by (simp only: run_snoc)
  with snoc.IH show ?case by (rule step_objects)
qed

section \<open>The claims about the definition of the variable\<close>

text \<open>
  C1, as amended: the object the name \<open>tracer\<close> denotes in a thread does not depend on
  the state of the process, so two evaluations in one thread give the same object, in
  both builds, and the second evaluation constructs nothing. In the build with the
  backend two threads get the same object only if they are the same thread. In the
  build without the backend all threads get the same object.
\<close>

theorem C1_handle_identity:
  "fst (current b t s') = fst (current b t s)
   \<and> current b t (snd (current b t s)) = (fst (current b t s), snd (current b t s))
   \<and> ((fst (current True t1 s1) = fst (current True t2 s2)) = (t1 = t2))
   \<and> fst (current False t1 s1) = fst (current False t2 s2)"
proof -
  have denotes: "\<And>c u x. fst (current c u x) = instance_of (storage (tracer c)) u"
    by (simp add: current_def Let_def)
  have twice: "fst (current b t s') = fst (current b t s)"
    by (simp only: denotes)
  have again: "current b t (snd (current b t s)) = (fst (current b t s), snd (current b t s))"
    by (simp add: current_def Let_def)
  have per_thread: "(fst (current True t1 s1) = fst (current True t2 s2)) = (t1 = t2)"
    by (simp add: denotes tracer_True)
  have shared: "fst (current False t1 s1) = fst (current False t2 s2)"
    by (simp add: denotes tracer_False)
  from twice again per_thread shared show ?thesis by (intro conjI)
qed

text \<open>
  C1, as stated, fails in the build without the backend: the threads 0 and 1 are
  different, and the second one, evaluating \<open>tracer\<close> after the first, gets the very
  object the first one got.
\<close>

theorem C1_distinct_handles_counterexample:
  "(0::thread_id) \<noteq> 1
   \<and> fst (current False 0 (run False []))
       = fst (current False 1 (snd (current False 0 (run False []))))"
proof -
  have first: "fst (current False 0 (run False [])) = Static_Object"
    by (simp add: current_def Let_def tracer_False)
  have second: "fst (current False 1 (snd (current False 0 (run False [])))) = Static_Object"
    by (simp add: current_def Let_def tracer_False)
  have "(0::thread_id) \<noteq> 1" by simp
  with first second show ?thesis by simp
qed

text \<open>
  C9: in the build with the backend the constructor argument is the string "rgw". In
  every reachable state, a thread that evaluates \<open>tracer\<close> gets its own object,
  constructed with "rgw", and every handle alive in the process was constructed with
  "rgw". The handle the constructor builds from that initializer has the service name
  "rgw", and the one call it makes to the backend at construction hands over the name
  "rgw" (the constructor is that of the previous sections, written from the
  specification, since the class is not among the sources).
\<close>

theorem C9_service_name_rgw:
  "init (tracer True) = Direct_Init [''rgw'']
   \<and> fst (current True t (run True evs)) = Thread_Object t
   \<and> snd (current True t (run True evs)) (Thread_Object t) = Some (Direct_Init [''rgw''])
   \<and> ran (run True evs) \<subseteq> {Direct_Init [''rgw'']}
   \<and> service_name (construct True (init (tracer True))) = Some ''rgw''
   \<and> backend_calls (construct True (init (tracer True))) = [Connect ''rgw'']"
proof -
  have alive: "ran (run True evs) \<subseteq> {Direct_Init [''rgw'']}"
  proof
    fix i assume "i \<in> ran (run True evs)"
    then obtain oid where "run True evs oid = Some i" by (auto simp add: ran_def)
    then have "i = init (tracer True)" using run_objects by blast
    then show "i \<in> {Direct_Init [''rgw'']}" by (simp add: tracer_True)
  qed
  have mine: "snd (current True t (run True evs)) (Thread_Object t)
              = Some (Direct_Init [''rgw''])"
  proof (cases "run True evs (Thread_Object t)")
    case None
    then show ?thesis by (simp add: current_def Let_def tracer_True)
  next
    case (Some i)
    then have "i = init (tracer True)" using run_objects by blast
    with Some show ?thesis by (simp add: current_def Let_def tracer_True)
  qed
  have argument: "init (tracer True) = Direct_Init [''rgw'']"
    by (simp add: tracer_True)
  have own: "fst (current True t (run True evs)) = Thread_Object t"
    by (simp add: current_def Let_def tracer_True)
  have named: "service_name (construct True (init (tracer True))) = Some ''rgw''"
    by (simp add: construct_def argument)
  have handed_over: "backend_calls (construct True (init (tracer True))) = [Connect ''rgw'']"
    by (simp add: construct_def argument)
  from argument own mine alive named handed_over show ?thesis by (intro conjI)
qed

text \<open>
  C10: in the build without the backend the variable is defined without an
  initializer. In every reachable state the handle a thread gets was constructed by the
  default constructor, and no handle alive in the process was constructed with a string
  argument.
\<close>

theorem C10_no_service_name:
  "init (tracer False) = Default_Init
   \<and> snd (current False t (run False evs)) (fst (current False t (run False evs)))
       = Some Default_Init
   \<and> ran (run False evs) = {Default_Init}
   \<and> (\<forall>args. Direct_Init args \<notin> ran (run False evs))"
proof -
  have default: "init (tracer False) = Default_Init"
    by (simp add: tracer_False)
  have got: "snd (current False t (run False evs)) (fst (current False t (run False evs)))
      = Some Default_Init"
    by (simp add: run_False current_def Let_def tracer_False)
  have all: "ran (run False evs) = {Default_Init}"
    by (simp add: run_False)
  have no_string: "\<forall>args. Direct_Init args \<notin> ran (run False evs)"
    by (simp add: all)
  from default got all no_string show ?thesis by (intro conjI)
qed

section \<open>The handle of the build without the backend\<close>

lemma construct_False: "\<not> enabled (construct False i)"
  by (simp add: construct_def)

lemma invoke_disabled: "\<not> enabled h \<Longrightarrow> invoke h c = (noop_outcome c, h)"
proof (cases c)
  case (New_Span now name p)
  assume "\<not> enabled h"
  with New_Span show ?thesis by (simp add: new_span_def)
next
  case (Complete r)
  assume "\<not> enabled h"
  with Complete show ?thesis by (simp add: complete_def split: span_ref.splits)
qed

lemma invoke_all_disabled:
  "\<not> enabled h \<Longrightarrow> invoke_all h cs = (map noop_outcome cs, h)"
  by (induction cs) (simp_all add: invoke_disabled)

lemma invoke_all_construct_False:
  "invoke_all (construct False i) cs = (map noop_outcome cs, construct False i)"
  by (rule invoke_all_disabled) (rule construct_False)

text \<open>
  C2: in the build without the backend, every handle, whatever calls it has served,
  reports that it is not enabled; \<open>new_span\<close> returns the sentinel and leaves the handle
  as it was, so that nothing was allocated, no timestamp was taken and no call to a
  backend was made, ever; and completing the sentinel changes nothing.
\<close>

theorem C2_no_backend_no_resources:
  "is_enabled (snd (invoke_all (construct False i) cs)) = False
   \<and> new_span (snd (invoke_all (construct False i) cs)) now name p
       = (Sentinel, snd (invoke_all (construct False i) cs))
   \<and> complete (snd (invoke_all (construct False i) cs)) Sentinel
       = snd (invoke_all (construct False i) cs)
   \<and> allocations (snd (invoke_all (construct False i) cs)) = 0
   \<and> timestamps (snd (invoke_all (construct False i) cs)) = 0
   \<and> backend_calls (snd (invoke_all (construct False i) cs)) = []"
proof -
  have same: "snd (invoke_all (construct False i) cs) = construct False i"
    by (simp add: invoke_all_construct_False)
  have off: "is_enabled (construct False i) = False"
    by (simp add: is_enabled_def construct_def)
  have sentinel: "new_span (construct False i) now name p = (Sentinel, construct False i)"
    by (simp add: new_span_def construct_False)
  have done_nothing: "complete (construct False i) Sentinel = construct False i"
    by (simp add: complete_def)
  have no_effect: "allocations (construct False i) = 0
      \<and> timestamps (construct False i) = 0 \<and> backend_calls (construct False i) = []"
    by (cases "name_of i") (simp_all add: construct_def)
  from off sentinel done_nothing no_effect show ?thesis
    by (simp only: same simp_thms)
qed

text \<open>
  C3: in the build without the backend, a thread that evaluates \<open>tracer\<close> in any
  reachable state gets an object that is alive (the default-constructed object of static
  storage duration), and every sequence of \<open>new_span\<close> and completion calls on that
  handle returns, call by call, the no-op value and leaves the handle exactly as it was
  constructed.
\<close>

theorem C3_no_backend_sequence_is_noop:
  "current False t (run False evs) = (Static_Object, run False evs)
   \<and> run False evs Static_Object = Some Default_Init
   \<and> invoke_all (construct False Default_Init) cs
       = (map noop_outcome cs, construct False Default_Init)
   \<and> length (fst (invoke_all (construct False Default_Init) cs)) = length cs"
proof -
  have alive: "run False evs Static_Object = Some Default_Init"
    by (simp add: run_False)
  have valid: "current False t (run False evs) = (Static_Object, run False evs)"
    by (simp add: run_False current_def Let_def tracer_False)
  have noop: "invoke_all (construct False Default_Init) cs
      = (map noop_outcome cs, construct False Default_Init)"
    by (rule invoke_all_construct_False)
  have every_call_returns: "length (fst (invoke_all (construct False Default_Init) cs)) = length cs"
    by (simp add: noop)
  from valid alive noop every_call_returns show ?thesis by (intro conjI)
qed

section \<open>The handle of the build with the backend\<close>

text \<open>
  Two facts every call preserves: the handle stays enabled, and no span is tracked under
  an identifier that has not been allocated yet.
\<close>

lemma new_span_enabled:
  "enabled h \<Longrightarrow> enabled (snd (new_span h now name p))"
  by (simp add: new_span_def Let_def)

lemma complete_enabled:
  "enabled h \<Longrightarrow> enabled (complete h r)"
  by (simp add: complete_def split: span_ref.splits option.splits)

lemma new_span_unallocated:
  assumes "\<And>sid. allocations h \<le> sid \<Longrightarrow> buffer h sid = None"
    and "allocations (snd (new_span h now name p)) \<le> sid"
  shows "buffer (snd (new_span h now name p)) sid = None"
  using assms by (simp add: new_span_def Let_def split: if_splits)

lemma complete_unallocated:
  assumes "\<And>sid. allocations h \<le> sid \<Longrightarrow> buffer h sid = None"
    and "allocations (complete h r) \<le> sid"
  shows "buffer (complete h r) sid = None"
  using assms
  by (cases r) (auto simp add: complete_def split: option.splits if_splits)

lemma snd_invoke_New_Span:
  "snd (invoke h (New_Span now name p)) = snd (new_span h now name p)"
  by (simp split: prod.splits)

lemma invoke_enabled:
  assumes "enabled h"
  shows "enabled (snd (invoke h c))"
proof (cases c)
  case (New_Span now name p)
  from assms have "enabled (snd (new_span h now name p))" by (rule new_span_enabled)
  with New_Span show ?thesis by (simp only: snd_invoke_New_Span)
next
  case (Complete r)
  from assms have "enabled (complete h r)" by (rule complete_enabled)
  with Complete show ?thesis by simp
qed

lemma invoke_unallocated:
  assumes "\<And>sid. allocations h \<le> sid \<Longrightarrow> buffer h sid = None"
    and "allocations (snd (invoke h c)) \<le> sid"
  shows "buffer (snd (invoke h c)) sid = None"
proof (cases c)
  case (New_Span now name p)
  have eq: "snd (invoke h c) = snd (new_span h now name p)"
    using New_Span by (simp only: snd_invoke_New_Span)
  from assms(2) show ?thesis
    unfolding eq using assms(1) by (rule new_span_unallocated [rotated])
next
  case (Complete r)
  have eq: "snd (invoke h c) = complete h r"
    using Complete by simp
  from assms(2) show ?thesis
    unfolding eq using assms(1) by (rule complete_unallocated [rotated])
qed

lemma invoke_all_Cons:
  "snd (invoke_all h (c # cs)) = snd (invoke_all (snd (invoke h c)) cs)"
  by (simp split: prod.splits)

lemma invoke_all_enabled: "enabled h \<Longrightarrow> enabled (snd (invoke_all h cs))"
proof (induction cs arbitrary: h)
  case Nil
  then show ?case by simp
next
  case (Cons c cs)
  from Cons.prems have "enabled (snd (invoke h c))" by (rule invoke_enabled)
  then have "enabled (snd (invoke_all (snd (invoke h c)) cs))" by (rule Cons.IH)
  then show ?case by (simp only: invoke_all_Cons)
qed

lemma invoke_all_unallocated:
  assumes "\<And>sid. allocations h \<le> sid \<Longrightarrow> buffer h sid = None"
    and "allocations (snd (invoke_all h cs)) \<le> sid"
  shows "buffer (snd (invoke_all h cs)) sid = None"
  using assms
proof (induction cs arbitrary: h sid)
  case Nil
  then show ?case by simp
next
  case (Cons c cs)
  have step: "\<And>k. allocations (snd (invoke h c)) \<le> k \<Longrightarrow> buffer (snd (invoke h c)) k = None"
    using Cons.prems(1) by (rule invoke_unallocated)
  from Cons.prems(2) have "allocations (snd (invoke_all (snd (invoke h c)) cs)) \<le> sid"
    by (simp only: invoke_all_Cons)
  with step have "buffer (snd (invoke_all (snd (invoke h c)) cs)) sid = None"
    by (rule Cons.IH)
  then show ?case by (simp only: invoke_all_Cons)
qed

lemma construct_True_enabled: "enabled (construct True i)"
  by (simp add: construct_def)

lemma construct_unallocated: "buffer (construct b i) sid = None"
  by (simp add: construct_def)

lemma reached_enabled: "enabled (snd (invoke_all (construct True i) cs))"
  using construct_True_enabled by (rule invoke_all_enabled)

lemma reached_unallocated:
  assumes "allocations (snd (invoke_all (construct b i) cs)) \<le> sid"
  shows "buffer (snd (invoke_all (construct b i) cs)) sid = None"
  using construct_unallocated assms by (rule invoke_all_unallocated)

text \<open>
  C5: on the handle of an execution context, after any calls, let \<open>P\<close> be a span the
  handle tracks that is not completed (only a handle of the build with the backend
  tracks spans). Then \<open>new_span\<close> with parent \<open>P\<close> returns a
  new tracked span, different from \<open>P\<close>, whose parent reference is \<open>P\<close>, and touches no
  other span. Completing \<open>P\<close> while the child is open marks \<open>P\<close> completed and leaves
  every other span (the child and its siblings) as it was; the child still has parent
  \<open>P\<close> and can be completed afterwards.
\<close>

theorem C5_parent_linkage:
  assumes reached: "h = snd (invoke_all (construct b i) cs)"
    and open_parent: "buffer h p = Some sp" "\<not> completed sp"
    and created: "new_span h now name (Some (Tracked p)) = (r, h1)"
  shows "\<exists>c. r = Tracked c \<and> c \<noteq> p \<and> buffer h c = None
           \<and> map_option parent (buffer h1 c) = Some (Some p)
           \<and> map_option completed (buffer h1 c) = Some False
           \<and> (\<forall>q. q \<noteq> c \<longrightarrow> buffer h1 q = buffer h q)
           \<and> map_option completed (buffer (complete h1 (Tracked p)) p) = Some True
           \<and> (\<forall>q. q \<noteq> p \<longrightarrow> buffer (complete h1 (Tracked p)) q = buffer h1 q)
           \<and> map_option parent (buffer (complete (complete h1 (Tracked p)) r) c)
               = Some (Some p)
           \<and> map_option completed (buffer (complete (complete h1 (Tracked p)) r) c)
               = Some True"
proof -
  have en: "enabled h"
  proof (cases b)
    case True
    with reached have "h = snd (invoke_all (construct True i) cs)" by simp
    then show ?thesis by (simp only: reached_enabled)
  next
    case False
    with reached have "h = construct False i"
      by (simp add: invoke_all_construct_False)
    then have "buffer h p = None" by (simp add: construct_def)
    with open_parent(1) show ?thesis by simp
  qed
  have unused: "buffer h (allocations h) = None"
    unfolding reached by (rule reached_unallocated) simp
  from open_parent(1) unused have differ: "allocations h \<noteq> p"
    by auto
  from created en have r: "r = Tracked (allocations h)"
    by (simp add: new_span_def Let_def)
  from created en have h1: "h1 = h\<lparr>buffer := (buffer h)(allocations h \<mapsto>
                  \<lparr>span_name = name, start_time = now,
                   parent = Some p, completed = False\<rparr>),
              allocations := Suc (allocations h),
              timestamps := Suc (timestamps h),
              backend_calls := backend_calls h @ [Begin_Tracking (allocations h)]\<rparr>"
    by (simp add: new_span_def Let_def)
  have en1: "enabled h1"
    using en by (simp add: h1)
  have parent_there: "buffer h1 p = Some sp"
    using open_parent(1) differ by (simp add: h1)
  have child_there: "buffer h1 (allocations h)
      = Some \<lparr>span_name = name, start_time = now, parent = Some p, completed = False\<rparr>"
    by (simp add: h1)
  have others: "\<forall>q. q \<noteq> allocations h \<longrightarrow> buffer h1 q = buffer h q"
    by (simp add: h1)
  have closed_parent: "buffer (complete h1 (Tracked p))
      = (buffer h1)(p \<mapsto> sp\<lparr>completed := True\<rparr>)"
    using en1 parent_there by (simp add: complete_def)
  have en2: "enabled (complete h1 (Tracked p))"
    using en1 by (rule complete_enabled)
  have child_after: "buffer (complete h1 (Tracked p)) (allocations h)
      = Some \<lparr>span_name = name, start_time = now, parent = Some p, completed = False\<rparr>"
    using child_there differ by (simp add: closed_parent)
  have closed_child:
    "buffer (complete (complete h1 (Tracked p)) (Tracked (allocations h))) (allocations h)
      = Some \<lparr>span_name = name, start_time = now, parent = Some p, completed = True\<rparr>"
    using en2 child_after by (simp add: complete_def)
  have "r = Tracked (allocations h) \<and> allocations h \<noteq> p \<and> buffer h (allocations h) = None
           \<and> map_option parent (buffer h1 (allocations h)) = Some (Some p)
           \<and> map_option completed (buffer h1 (allocations h)) = Some False
           \<and> (\<forall>q. q \<noteq> allocations h \<longrightarrow> buffer h1 q = buffer h q)
           \<and> map_option completed (buffer (complete h1 (Tracked p)) p) = Some True
           \<and> (\<forall>q. q \<noteq> p \<longrightarrow> buffer (complete h1 (Tracked p)) q = buffer h1 q)
           \<and> map_option parent
                (buffer (complete (complete h1 (Tracked p)) r) (allocations h))
               = Some (Some p)
           \<and> map_option completed
                (buffer (complete (complete h1 (Tracked p)) r) (allocations h))
               = Some True"
    using r differ unused others
    by (simp add: child_there closed_parent closed_child)
  then show ?thesis by (rule exI)
qed

theorem C5_parent_linkage_witness:
  "buffer (snd (invoke_all (construct True (Direct_Init [''rgw''])) [New_Span 5 ''GET'' None])) 0
     = Some \<lparr>span_name = ''GET'', start_time = 5, parent = None, completed = False\<rparr>
   \<and> fst (new_span
         (snd (invoke_all (construct True (Direct_Init [''rgw''])) [New_Span 5 ''GET'' None]))
         6 ''read'' (Some (Tracked 0))) = Tracked 1
   \<and> map_option parent (buffer (snd (new_span
         (snd (invoke_all (construct True (Direct_Init [''rgw''])) [New_Span 5 ''GET'' None]))
         6 ''read'' (Some (Tracked 0)))) 1) = Some (Some 0)
   \<and> map_option completed (buffer (complete (snd (new_span
         (snd (invoke_all (construct True (Direct_Init [''rgw''])) [New_Span 5 ''GET'' None]))
         6 ''read'' (Some (Tracked 0)))) (Tracked 0)) 0) = Some True
   \<and> map_option completed (buffer (complete (snd (new_span
         (snd (invoke_all (construct True (Direct_Init [''rgw''])) [New_Span 5 ''GET'' None]))
         6 ''read'' (Some (Tracked 0)))) (Tracked 0)) 1) = Some False"
proof -
  let ?h = "snd (invoke_all (construct True (Direct_Init [''rgw''])) [New_Span 5 ''GET'' None])"
  let ?sp = "\<lparr>span_name = ''GET'', start_time = 5, parent = None, completed = False\<rparr>"
  let ?new = "new_span ?h 6 ''read'' (Some (Tracked 0))"
  have a: "buffer ?h 0 = Some ?sp"
    by (simp add: new_span_def construct_def Let_def)
  have b: "\<not> completed ?sp"
    by simp
  have c: "?new = (fst ?new, snd ?new)"
    by simp
  have r: "fst ?new = Tracked 1"
    by (simp add: new_span_def construct_def Let_def)
  from C5_parent_linkage [OF refl a b c] obtain k where
    k: "fst ?new = Tracked k"
      "map_option parent (buffer (snd ?new) k) = Some (Some 0)"
      "map_option completed (buffer (snd ?new) k) = Some False"
      "map_option completed (buffer (complete (snd ?new) (Tracked 0)) 0) = Some True"
      "\<forall>q. q \<noteq> 0 \<longrightarrow> buffer (complete (snd ?new) (Tracked 0)) q = buffer (snd ?new) q"
    by blast
  from k(1) r have k1: "k = 1" by simp
  from k(5) have "buffer (complete (snd ?new) (Tracked 0)) 1 = buffer (snd ?new) 1"
    by simp
  with k(3) k1 have d: "map_option completed (buffer (complete (snd ?new) (Tracked 0)) 1)
      = Some False"
    by simp
  from a r k(2) k(4) d show ?thesis
    unfolding k1 by (intro conjI)
qed

section \<open>Threads calling their handles: the scenario with worker threads\<close>





















end
